theory Spec2Isabelle
  imports Main "HOL-Library.Word"
begin

section \<open>Time and machine integers\<close>

text \<open>
  Go's \<^verbatim>\<open>time.Duration\<close> is an \<^verbatim>\<open>int64\<close> count of nanoseconds and \<^verbatim>\<open>int\<close> is 64 bits wide
  on the platform the service is built for. Both are modelled as \<^typ>\<open>int\<close> with the
  two's-complement wrap-around written out where the source computes. A \<^verbatim>\<open>time.Time\<close> is
  an instant, counted in nanoseconds from the zero \<^verbatim>\<open>Time\<close>.
\<close>

type_synonym duration = int
type_synonym instant = int

definition minDuration :: duration where
  "minDuration = - (2 ^ 63)"

definition maxDuration :: duration where
  "maxDuration = 2 ^ 63 - 1"

definition Second :: duration where
  "Second = 1000000000"

definition Minute :: duration where
  "Minute = 60 * Second"

definition wrap64 :: "int \<Rightarrow> int" where
  \<comment> \<open>the value an \<^verbatim>\<open>int64\<close> holds after an arithmetic operation with exact result \<open>x\<close>\<close>
  "wrap64 x = (x + 2 ^ 63) mod 2 ^ 64 - 2 ^ 63"

definition time_Sub :: "instant \<Rightarrow> instant \<Rightarrow> duration" where
  \<comment> \<open>\<^verbatim>\<open>t.Sub(u)\<close>: the difference, saturated at the least and greatest \<^verbatim>\<open>Duration\<close>\<close>
  "time_Sub t u =
     (if t - u < minDuration then minDuration
      else if maxDuration < t - u then maxDuration
      else t - u)"

type_synonym 'a result = "string + 'a"
  \<comment> \<open>a Go pair \<^verbatim>\<open>(value, err)\<close>: \<open>Inl\<close> carries the error text, \<open>Inr\<close> the value\<close>

section \<open>The poll-based wake detector\<close>

subsection \<open>State\<close>

record PollerConfig =
  BaseRetryInterval :: duration
  MaxRetryInterval :: duration
  MaxRetryCount :: int

text \<open>
  The fields of \<^verbatim>\<open>WakeEventPoller\<close>. The callback is an external function: the record
  keeps whether it is set (\<^verbatim>\<open>callback != nil\<close>), and what a call returns is an input of
  the operation that calls it. \<^verbatim>\<open>pauseChan\<close> is a buffered channel of capacity one: its
  content is the value it holds, if any.
\<close>

record WakeEventPoller =
  callback_set :: bool
  pauseChan :: "bool option"
  pollInterval :: duration
  baseRetryInterval :: duration
  maxRetryInterval :: duration
  maxRetryCount :: int
  lastStatus :: string
  pendingRepair :: bool
  lastRepairTime :: instant
  consecutiveFails :: int
  currentInterval :: duration
  deviceID :: string
  paused :: bool

text \<open>What an operation of the poller does to the outside world, in order.\<close>

datatype poller_effect =
  QueryStatus
  | QueryIdle
  | Repair
  | Sleep duration
  | SpawnRecheck

text \<open>
  What the outside world answers during one operation: the result of \<^verbatim>\<open>dm.GetStatus()\<close>,
  of \<^verbatim>\<open>GetIdleTime()\<close> (milliseconds, \<^verbatim>\<open>uint32\<close>), the clock read by \<^verbatim>\<open>time.Since\<close>, the
  value the callback returns and the clock read by \<^verbatim>\<open>time.Now()\<close> after it.
\<close>

record poll_env =
  status_res :: "string result"
  idle_res :: "32 word result"
  since_now :: instant
  repair_ok :: bool
  repair_now :: instant

definition NewWakeEventPoller ::
  "string \<Rightarrow> bool \<Rightarrow> PollerConfig option \<Rightarrow> WakeEventPoller" where
  "NewWakeEventPoller dev cb cfg =
     (let baseInterval =
            (case cfg of
               None \<Rightarrow> 60 * Second
             | Some c \<Rightarrow> if BaseRetryInterval c > 0 then BaseRetryInterval c else 60 * Second);
          maxInterval =
            (case cfg of
               None \<Rightarrow> 10 * Minute
             | Some c \<Rightarrow> if MaxRetryInterval c > 0 then MaxRetryInterval c else 10 * Minute);
          maxRetry =
            (case cfg of
               None \<Rightarrow> 10
             | Some c \<Rightarrow> if MaxRetryCount c \<ge> 0 then MaxRetryCount c else 10)
      in \<lparr>callback_set = cb,
          pauseChan = None,
          pollInterval = 10 * Second,
          baseRetryInterval = baseInterval,
          maxRetryInterval = maxInterval,
          maxRetryCount = maxRetry,
          lastStatus = [],
          pendingRepair = False,
          lastRepairTime = 0,
          consecutiveFails = 0,
          currentInterval = baseInterval,
          deviceID = dev,
          paused = False\<rparr>)"

subsection \<open>Pause, resume and the retry state\<close>

definition chan_send :: "'a \<Rightarrow> 'a option \<Rightarrow> 'a option" where
  \<comment> \<open>\<^verbatim>\<open>select { case ch <- v: default: }\<close> on a channel of capacity one\<close>
  "chan_send v ch = (case ch of None \<Rightarrow> Some v | Some w \<Rightarrow> Some w)"

definition Pause :: "WakeEventPoller \<Rightarrow> WakeEventPoller" where
  "Pause p =
     (if \<not> paused p
      then p\<lparr>paused := True, pauseChan := chan_send True (pauseChan p)\<rparr>
      else p)"

definition IsPaused :: "WakeEventPoller \<Rightarrow> bool" where
  "IsPaused p = paused p"

definition ResetRetryState :: "WakeEventPoller \<Rightarrow> WakeEventPoller" where
  "ResetRetryState p = p\<lparr>consecutiveFails := 0, currentInterval := baseRetryInterval p\<rparr>"

definition getCurrentInterval :: "WakeEventPoller \<Rightarrow> duration" where
  "getCurrentInterval p = currentInterval p"

definition incrementFails :: "WakeEventPoller \<Rightarrow> WakeEventPoller \<times> bool" where
  "incrementFails p =
     (let p1 = p\<lparr>consecutiveFails := wrap64 (consecutiveFails p + 1)\<rparr>
      in if maxRetryCount p1 > 0 \<and> consecutiveFails p1 \<ge> maxRetryCount p1
         then (p1, False)
         else
           (let p2 = p1\<lparr>currentInterval := wrap64 (currentInterval p1 * 2)\<rparr>
            in if currentInterval p2 > maxRetryInterval p2
               then (p2\<lparr>currentInterval := maxRetryInterval p2\<rparr>, True)
               else (p2, True)))"

text \<open>
  \<^verbatim>\<open>Resume\<close> launches a goroutine when a repair is pending; the model returns the state
  together with the effect \<open>SpawnRecheck\<close>, and \<open>resume_recheck\<close> below is the goroutine's
  body, run on the state the poller has when it is scheduled.
\<close>

definition Resume :: "WakeEventPoller \<Rightarrow> WakeEventPoller \<times> poller_effect list" where
  "Resume p =
     (if paused p
      then
        (let p1 = p\<lparr>paused := False, pauseChan := chan_send False (pauseChan p)\<rparr>
         in if pendingRepair p1 then (p1, [SpawnRecheck]) else (p1, []))
      else (p, []))"

definition resume_recheck ::
  "poll_env \<Rightarrow> WakeEventPoller \<Rightarrow> WakeEventPoller \<times> poller_effect list" where
  "resume_recheck env p =
     (case status_res env of
        Inl e \<Rightarrow> (p, [Sleep (2 * Second), QueryStatus])
      | Inr status \<Rightarrow>
          if status \<noteq> ''OK''
          then
            (if callback_set p
             then
               (if repair_ok env
                then (ResetRetryState (p\<lparr>pendingRepair := False\<rparr>),
                      [Sleep (2 * Second), QueryStatus, Repair])
                else (p, [Sleep (2 * Second), QueryStatus, Repair]))
             else (p, [Sleep (2 * Second), QueryStatus]))
          else (p\<lparr>pendingRepair := False\<rparr>, [Sleep (2 * Second), QueryStatus]))"

subsection \<open>The polling loop\<close>

text \<open>
  The start of \<^verbatim>\<open>poll\<close>: one status query and, when the device is already abnormal, one
  repair. What \<^verbatim>\<open>incrementFails\<close> returns is dropped here, as in the source.
\<close>

definition poll_init ::
  "poll_env \<Rightarrow> WakeEventPoller \<Rightarrow> WakeEventPoller \<times> poller_effect list" where
  "poll_init env p =
     (case status_res env of
        Inl e \<Rightarrow> (p, [QueryStatus])
      | Inr status \<Rightarrow>
          (let p1 = p\<lparr>lastStatus := status\<rparr>
           in if status \<noteq> ''OK''
              then
                (if callback_set p1
                 then
                   (let p2 = p1\<lparr>lastRepairTime := repair_now env\<rparr>
                    in if repair_ok env
                       then (ResetRetryState p2, [QueryStatus, Repair])
                       else (fst (incrementFails p2), [QueryStatus, Repair]))
                 else (p1, [QueryStatus]))
              else (p1, [QueryStatus])))"

text \<open>
  One pass of the \<^verbatim>\<open>case <-ticker.C\<close> branch. The loop's local variable
  \<^verbatim>\<open>exceededMaxRetry\<close> travels with the poller. A \<^verbatim>\<open>continue\<close> ends the pass early:
  the stages below return \<open>Continue\<close> with the state reached, or \<open>Next\<close> with the state and
  the local \<^verbatim>\<open>shouldRepair\<close>.
\<close>

datatype flow = Continue WakeEventPoller | Next WakeEventPoller bool

definition idle_seconds :: "32 word result \<Rightarrow> int" where
  \<comment> \<open>\<^verbatim>\<open>idleSec\<close>: \<open>-1\<close> when the query fails, else whole seconds\<close>
  "idle_seconds r = (case r of Inl e \<Rightarrow> - 1 | Inr idleMs \<Rightarrow> int (unat idleMs div 1000))"

definition status_change :: "string \<Rightarrow> int \<Rightarrow> WakeEventPoller \<Rightarrow> flow" where
  \<comment> \<open>the block under \<^verbatim>\<open>status != "OK" && p.lastStatus == "OK"\<close>\<close>
  "status_change status idleSec p =
     (if status \<noteq> ''OK'' \<and> lastStatus p = ''OK''
      then
        (if idleSec < 0 \<or> idleSec \<ge> 300
         then Continue (p\<lparr>pendingRepair := True, lastStatus := status\<rparr>)
         else Next (ResetRetryState (p\<lparr>pendingRepair := False\<rparr>)) True)
      else Next p False)"

definition interval_elapsed :: "poll_env \<Rightarrow> WakeEventPoller \<Rightarrow> bool \<Rightarrow> flow" where
  \<comment> \<open>\<^verbatim>\<open>time.Since(p.lastRepairTime) > interval\<close> sets \<^verbatim>\<open>shouldRepair\<close>\<close>
  "interval_elapsed env p shouldRepair =
     (if time_Sub (since_now env) (lastRepairTime p) > getCurrentInterval p
      then Next p True
      else Next p shouldRepair)"

definition sustained_error ::
  "poll_env \<Rightarrow> string \<Rightarrow> int \<Rightarrow> WakeEventPoller \<Rightarrow> bool \<Rightarrow> flow" where
  \<comment> \<open>the block under \<^verbatim>\<open>status != "OK" && p.lastStatus != "OK"\<close>\<close>
  "sustained_error env status idleSec p shouldRepair =
     (if status \<noteq> ''OK'' \<and> lastStatus p \<noteq> ''OK''
      then
        (if pendingRepair p
         then
           (if idleSec \<ge> 0 \<and> idleSec \<le> 60
            then interval_elapsed env (ResetRetryState (p\<lparr>pendingRepair := False\<rparr>)) True
            else Continue p)
         else
           (if idleSec \<ge> 0 \<and> idleSec > 60
            then Continue p
            else interval_elapsed env p shouldRepair))
      else Next p shouldRepair)"

definition do_repair ::
  "poll_env \<Rightarrow> WakeEventPoller \<Rightarrow> bool \<Rightarrow> (WakeEventPoller \<times> bool) \<times> poller_effect list" where
  \<comment> \<open>the block under \<^verbatim>\<open>if shouldRepair\<close>\<close>
  "do_repair env p exceeded =
     (if callback_set p
      then
        (let p1 = p\<lparr>lastRepairTime := repair_now env\<rparr>
         in if repair_ok env
            then ((ResetRetryState p1, exceeded), [Repair])
            else
              (case incrementFails p1 of
                 (p2, keep_trying) \<Rightarrow>
                   if keep_trying then ((p2, exceeded), [Repair]) else ((p2, True), [Repair])))
      else ((p, exceeded), []))"

definition poll_tick ::
  "poll_env \<Rightarrow> WakeEventPoller \<Rightarrow> bool \<Rightarrow> (WakeEventPoller \<times> bool) \<times> poller_effect list" where
  "poll_tick env p exceeded =
     (if IsPaused p then ((p, exceeded), [])
      else if exceeded
      then
        (case status_res env of
           Inl e \<Rightarrow> ((p, exceeded), [QueryStatus])
         | Inr status \<Rightarrow>
             if status = ''OK''
             then (((ResetRetryState p)\<lparr>lastStatus := status\<rparr>, False), [QueryStatus])
             else ((p, exceeded), [QueryStatus]))
      else
        (case status_res env of
           Inl e \<Rightarrow> ((p, exceeded), [QueryStatus])
         | Inr status \<Rightarrow>
             (let p1 = (if status = ''OK'' then p\<lparr>pendingRepair := False\<rparr> else p);
                  idleSec = idle_seconds (idle_res env)
              in case status_change status idleSec p1 of
                   Continue p2 \<Rightarrow> ((p2, exceeded), [QueryStatus, QueryIdle])
                 | Next p2 shouldRepair \<Rightarrow>
                     (case sustained_error env status idleSec p2 shouldRepair of
                        Continue p3 \<Rightarrow> ((p3, exceeded), [QueryStatus, QueryIdle])
                      | Next p3 shouldRepair' \<Rightarrow>
                          if shouldRepair'
                          then
                            (case do_repair env p3 exceeded of
                               ((p4, exceeded'), effs) \<Rightarrow>
                                 ((p4\<lparr>lastStatus := status\<rparr>, exceeded'),
                                  [QueryStatus, QueryIdle] @ effs))
                          else ((p3\<lparr>lastStatus := status\<rparr>, exceeded),
                                [QueryStatus, QueryIdle])))))"

subsection \<open>The loop around the tick, and its callers\<close>

text \<open>
  Where the goroutine running \<^verbatim>\<open>poll\<close> stands: before its first statement, at the outer
  \<^verbatim>\<open>select\<close>, at the inner \<^verbatim>\<open>select\<close> entered after a pause message, or returned. The
  \<^verbatim>\<open>break\<close> of the inner \<^verbatim>\<open>select\<close> leaves that \<^verbatim>\<open>select\<close> only, so the inner \<^verbatim>\<open>for\<close>
  is left through \<^verbatim>\<open>stopChan\<close> alone.
\<close>

datatype loop_ctl = NotStarted | Running | Waiting | Exited

record system =
  sys_poller :: WakeEventPoller
  sys_exceeded :: bool
  sys_ctl :: loop_ctl
  sys_rechecks :: nat

text \<open>
  The atomic steps of the poller and of the code that calls it: the exported methods, the
  start of \<^verbatim>\<open>poll\<close>, the three cases a \<^verbatim>\<open>select\<close> can take, and the run of a goroutine
  launched by \<^verbatim>\<open>Resume\<close>.
\<close>

datatype action =
  CallPause
  | CallResume
  | CallResetRetryState
  | StartPoll poll_env
  | TickerFired poll_env
  | PauseChanRecv
  | StopChanRecv
  | RunRecheck poll_env

definition sys_new :: "WakeEventPoller \<Rightarrow> system" where
  "sys_new p = \<lparr>sys_poller = p, sys_exceeded = False, sys_ctl = NotStarted, sys_rechecks = 0\<rparr>"

fun sys_step :: "action \<Rightarrow> system \<Rightarrow> system \<times> poller_effect list" where
  "sys_step CallPause s = (s\<lparr>sys_poller := Pause (sys_poller s)\<rparr>, [])"
| "sys_step CallResume s =
     (case Resume (sys_poller s) of
        (p, effs) \<Rightarrow>
          (s\<lparr>sys_poller := p,
             sys_rechecks := (if effs = [] then sys_rechecks s else Suc (sys_rechecks s))\<rparr>,
           effs))"
| "sys_step CallResetRetryState s = (s\<lparr>sys_poller := ResetRetryState (sys_poller s)\<rparr>, [])"
| "sys_step (StartPoll env) s =
     (if sys_ctl s = NotStarted
      then
        (case poll_init env (sys_poller s) of
           (p, effs) \<Rightarrow> (s\<lparr>sys_poller := p, sys_exceeded := False, sys_ctl := Running\<rparr>, effs))
      else (s, []))"
| "sys_step (TickerFired env) s =
     (if sys_ctl s = Running
      then
        (case poll_tick env (sys_poller s) (sys_exceeded s) of
           ((p, exceeded), effs) \<Rightarrow> (s\<lparr>sys_poller := p, sys_exceeded := exceeded\<rparr>, effs))
      else (s, []))"
| "sys_step PauseChanRecv s =
     (case pauseChan (sys_poller s) of
        None \<Rightarrow> (s, [])
      | Some v \<Rightarrow>
          if sys_ctl s = Running
          then (s\<lparr>sys_poller := (sys_poller s)\<lparr>pauseChan := None\<rparr>,
                  sys_ctl := (if v then Waiting else Running)\<rparr>, [])
          else if sys_ctl s = Waiting
          then (s\<lparr>sys_poller := (sys_poller s)\<lparr>pauseChan := None\<rparr>\<rparr>, [])
          else (s, []))"
| "sys_step StopChanRecv s =
     (if sys_ctl s = Running \<or> sys_ctl s = Waiting
      then (s\<lparr>sys_ctl := Exited\<rparr>, [])
      else (s, []))"
| "sys_step (RunRecheck env) s =
     (if sys_rechecks s > 0
      then
        (case resume_recheck env (sys_poller s) of
           (p, effs) \<Rightarrow> (s\<lparr>sys_poller := p, sys_rechecks := sys_rechecks s - 1\<rparr>, effs))
      else (s, []))"

fun sys_run :: "action list \<Rightarrow> system \<Rightarrow> system \<times> poller_effect list" where
  "sys_run [] s = (s, [])"
| "sys_run (a # as) s =
     (case sys_step a s of
        (s1, effs1) \<Rightarrow> (case sys_run as s1 of (s2, effs2) \<Rightarrow> (s2, effs1 @ effs2)))"

fun loop_or_pause :: "action \<Rightarrow> bool" where
  "loop_or_pause CallPause = True"
| "loop_or_pause (TickerFired env) = True"
| "loop_or_pause PauseChanRecv = True"
| "loop_or_pause StopChanRecv = True"
| "loop_or_pause a = False"

section \<open>The resume event channel\<close>

record GUID =
  Data1 :: "32 word"
  Data2 :: "16 word"
  Data3 :: "16 word"
  Data4 :: "8 word list"

definition GUID_CONSOLE_DISPLAY_STATE :: GUID where
  "GUID_CONSOLE_DISPLAY_STATE =
     \<lparr>Data1 = 0x6fe69556, Data2 = 0x704a, Data3 = 0x47a0,
      Data4 = [0x8f, 0x24, 0xc2, 0x8d, 0x93, 0x6f, 0xda, 0x47]\<rparr>"

definition GUID_MONITOR_POWER_ON :: GUID where
  "GUID_MONITOR_POWER_ON =
     \<lparr>Data1 = 0x02731015, Data2 = 0x4510, Data3 = 0x4526,
      Data4 = [0x99, 0xe6, 0xe5, 0xa1, 0x7e, 0xbd, 0x1a, 0xea]\<rparr>"

definition DisplayStateOff :: int where "DisplayStateOff = 0"
definition DisplayStateDimmed :: int where "DisplayStateDimmed = 1"
definition DisplayStateOn :: int where "DisplayStateOn = 2"

text \<open>
  \<^verbatim>\<open>PowerBroadcastSetting\<close>; of the data only the first byte is declared and read. The
  \<^verbatim>\<open>eventData\<close> pointer is \<open>None\<close> when it is 0.
\<close>

record PowerBroadcastSetting =
  PowerSetting :: GUID
  DataLength :: "32 word"
  Data0 :: "8 word"

record PowerMonitor =
  pm_callback_set :: bool
  lastDisplayState :: int
  lastResumeTime :: instant
  minInterval :: duration

datatype monitor_effect = GoCallback

datatype resume_reason = LegacyPowerEvent | DisplayTurnedOn

definition NewPowerMonitor :: "bool \<Rightarrow> PowerMonitor" where
  "NewPowerMonitor cb =
     \<lparr>pm_callback_set = cb,
      lastDisplayState = DisplayStateOn,
      lastResumeTime = 0,
      minInterval = 5 * Second\<rparr>"

text \<open>\<open>now\<close> is the clock \<^verbatim>\<open>time.Now()\<close> reads.\<close>

definition triggerResume ::
  "resume_reason \<Rightarrow> instant \<Rightarrow> PowerMonitor \<Rightarrow> PowerMonitor \<times> bool \<times> monitor_effect list" where
  "triggerResume reason now pm =
     (if time_Sub now (lastResumeTime pm) < minInterval pm
      then (pm, False, [])
      else
        (let pm1 = pm\<lparr>lastResumeTime := now\<rparr>
         in if pm_callback_set pm1 then (pm1, True, [GoCallback]) else (pm1, True, [])))"

definition HandlePowerBroadcast ::
  "instant \<Rightarrow> 32 word \<Rightarrow> PowerBroadcastSetting option \<Rightarrow> PowerMonitor
     \<Rightarrow> PowerMonitor \<times> bool \<times> monitor_effect list" where
  "HandlePowerBroadcast now eventType eventData pm =
     (if eventType \<noteq> 0x8013
      then
        (if eventType = 7 \<or> eventType = 18
         then triggerResume LegacyPowerEvent now pm
         else (pm, False, []))
      else
        (case eventData of
           None \<Rightarrow> (pm, False, [])
         | Some pbs \<Rightarrow>
             if PowerSetting pbs = GUID_CONSOLE_DISPLAY_STATE
                \<or> PowerSetting pbs = GUID_MONITOR_POWER_ON
             then
               (let newState = uint (Data0 pbs);
                    oldState = lastDisplayState pm;
                    pm1 = pm\<lparr>lastDisplayState := newState\<rparr>
                in if oldState = DisplayStateOff \<and> newState = DisplayStateOn
                   then triggerResume DisplayTurnedOn now pm1
                   else (pm1, False, []))
             else (pm, False, [])))"

text \<open>
  The events the specification names as resume triggers: a legacy event of type 7 or 18,
  or a change of one of the two display settings from off to on.
\<close>

definition spec_resume_trigger ::
  "PowerMonitor \<Rightarrow> 32 word \<Rightarrow> PowerBroadcastSetting option \<Rightarrow> bool" where
  "spec_resume_trigger pm eventType eventData =
     (eventType = 7 \<or> eventType = 18 \<or>
      (eventType = 0x8013 \<and>
       (case eventData of
          None \<Rightarrow> False
        | Some pbs \<Rightarrow>
            (PowerSetting pbs = GUID_CONSOLE_DISPLAY_STATE
             \<or> PowerSetting pbs = GUID_MONITOR_POWER_ON)
            \<and> lastDisplayState pm = 0 \<and> uint (Data0 pbs) = 2)))"

section \<open>The repair orchestrator\<close>

text \<open>
  \<^verbatim>\<open>strings.EqualFold(s, "OK")\<close>: equality under simple Unicode case folding. \<open>O\<close> folds
  with \<open>o\<close> only; \<open>K\<close> folds with \<open>k\<close> and with the Kelvin sign U+212A, whose UTF-8
  encoding is the three bytes below.
\<close>

definition kelvin_sign :: string where
  "kelvin_sign = [CHR 0xE2, CHR 0x84, CHR 0xAA]"

definition EqualFold_OK :: "string \<Rightarrow> bool" where
  "EqualFold_OK s =
     (s = ''OK'' \<or> s = ''Ok'' \<or> s = ''oK'' \<or> s = ''ok''
      \<or> s = ''O'' @ kelvin_sign \<or> s = ''o'' @ kelvin_sign)"

datatype record_text =
  TextFailed string
  | TextCannotVerify
  | TextRepaired
  | TextStatusAfter string

datatype notify_error = ResetError string | DeviceStatusError string

datatype service_effect =
  StatsRecordResume
  | StatsRecordSkip
  | StatsRecordReset bool record_text
  | NotifyResumeResult bool bool string "notify_error option"
  | SleepFor duration
  | DevGetStatus
  | DevDisable
  | DevEnable

text \<open>What the device answers during one \<^verbatim>\<open>Reset\<close>; \<open>None\<close> is a nil error.\<close>

record reset_env =
  initial_status :: "string result"
  disable_err :: "string option"
  enable_err :: "string option"
  final_status :: "string result"

definition Reset :: "reset_env \<Rightarrow> duration \<Rightarrow> string option \<times> service_effect list" where
  "Reset env waitDuration =
     (case disable_err env of
        Some e \<Rightarrow> (Some e, [DevGetStatus, DevDisable])
      | None \<Rightarrow>
          (case enable_err env of
             Some e \<Rightarrow> (Some e, [DevGetStatus, DevDisable, SleepFor waitDuration, DevEnable])
           | None \<Rightarrow>
               (None,
                [DevGetStatus, DevDisable, SleepFor waitDuration, DevEnable, DevGetStatus])))"

record service_cfg =
  DeviceInstanceID :: string
  DeviceName :: string
  WaitSeconds :: int
  ResumeDelaySeconds :: int

record repair_env =
  precheck_res :: "string result"
  reset_answers :: reset_env
  verify_res :: "string result"

definition handlePolledWake ::
  "service_cfg \<Rightarrow> repair_env \<Rightarrow> bool \<times> service_effect list" where
  "handlePolledWake cfg env =
     (let delaySeconds = (if ResumeDelaySeconds cfg \<le> 0 then 3 else ResumeDelaySeconds cfg);
          deviceName = (if DeviceName cfg = [] then DeviceInstanceID cfg else DeviceName cfg);
          before = [StatsRecordResume, SleepFor (wrap64 (delaySeconds * Second)), DevGetStatus]
      in if (case precheck_res env of Inl e \<Rightarrow> False | Inr status \<Rightarrow> EqualFold_OK status)
         then (True, before @ [StatsRecordSkip])
         else
           (case Reset (reset_answers env) (wrap64 (WaitSeconds cfg * Second)) of
              (Some err, effs) \<Rightarrow>
                (False,
                 before @ effs @
                 [StatsRecordReset False (TextFailed err),
                  NotifyResumeResult False False deviceName (Some (ResetError err))])
            | (None, effs) \<Rightarrow>
                (case verify_res env of
                   Inl e \<Rightarrow>
                     (False,
                      before @ effs @ [DevGetStatus, StatsRecordReset False TextCannotVerify])
                 | Inr finalStatus \<Rightarrow>
                     if EqualFold_OK finalStatus
                     then
                       (True,
                        before @ effs @
                        [DevGetStatus, StatsRecordReset True TextRepaired,
                         NotifyResumeResult True False deviceName None])
                     else
                       (False,
                        before @ effs @
                        [DevGetStatus, StatsRecordReset False (TextStatusAfter finalStatus),
                         NotifyResumeResult False False deviceName
                           (Some (DeviceStatusError finalStatus))]))))"

section \<open>Notions of the specification, observers and invariants\<close>

text \<open>
  In the specification's words, a repair succeeded when the status query after the reset
  confirms OK: the reset ran to its end and the verifying query answered a status that is
  OK.
\<close>

definition post_reset_confirms_OK :: "repair_env \<Rightarrow> bool" where
  "post_reset_confirms_OK env =
     (disable_err (reset_answers env) = None \<and> enable_err (reset_answers env) = None
      \<and> (case verify_res env of Inl e \<Rightarrow> False | Inr finalStatus \<Rightarrow> EqualFold_OK finalStatus))"

text \<open>The success flags handed to the statistics and to the notifier, in order.\<close>

fun recorded_resets :: "service_effect list \<Rightarrow> bool list" where
  "recorded_resets [] = []"
| "recorded_resets (StatsRecordReset success text # effs) = success # recorded_resets effs"
| "recorded_resets (e # effs) = recorded_resets effs"

fun notified_fixed :: "service_effect list \<Rightarrow> bool list" where
  "notified_fixed [] = []"
| "notified_fixed (NotifyResumeResult fixed skipped name err # effs) = fixed # notified_fixed effs"
| "notified_fixed (e # effs) = notified_fixed effs"

text \<open>
  The invariant of the backoff interval: the configured bounds never change, the base is
  positive, doubling the bound does not leave \<^verbatim>\<open>int64\<close>, and the interval lies between them.
\<close>

definition backoff_inv :: "duration \<Rightarrow> duration \<Rightarrow> WakeEventPoller \<Rightarrow> bool" where
  "backoff_inv b m p =
     (baseRetryInterval p = b \<and> maxRetryInterval p = m \<and> 0 < b \<and> m < 2 ^ 62
      \<and> b \<le> currentInterval p \<and> currentInterval p \<le> m)"

definition flow_poller :: "flow \<Rightarrow> WakeEventPoller" where
  "flow_poller f = (case f of Continue p \<Rightarrow> p | Next p r \<Rightarrow> p)"

text \<open>
  The backoff policy in the specification's words: a failure increments the count; when
  the count reaches \<open>maxRetryCount\<close> (0 means no limit) the interval stays as it is, else
  it doubles, capped at the maximal interval. \<open>fails\<close> and \<open>interval\<close> are the count and
  the interval the failure acts on.
\<close>

definition fails_after_failure :: "int \<Rightarrow> int" where
  "fails_after_failure fails = wrap64 (fails + 1)"

definition interval_after_failure :: "int \<Rightarrow> duration \<Rightarrow> WakeEventPoller \<Rightarrow> duration" where
  "interval_after_failure fails interval p =
     (if 0 < maxRetryCount p \<and> maxRetryCount p \<le> fails_after_failure fails
      then interval
      else min (2 * interval) (maxRetryInterval p))"

text \<open>
  A tick that saw the status change from OK, or that resolves a pending repair, resets
  the retry state before it repairs: the count and the interval the repair outcome acts on.
\<close>

definition tick_resets_first :: "WakeEventPoller \<Rightarrow> bool" where
  "tick_resets_first p = (lastStatus p = ''OK'' \<or> pendingRepair p)"

definition fails_before_repair :: "WakeEventPoller \<Rightarrow> int" where
  "fails_before_repair p = (if tick_resets_first p then 0 else consecutiveFails p)"

definition interval_before_repair :: "WakeEventPoller \<Rightarrow> duration" where
  "interval_before_repair p =
     (if tick_resets_first p then baseRetryInterval p else currentInterval p)"

text \<open>
  The display state a notification carries, in the specification's words: a
  setting-change event (type \<open>0x8013\<close>) for the console-display-state or the
  monitor-power-on setting, with its new display-power value.
\<close>

definition display_change :: "32 word \<Rightarrow> PowerBroadcastSetting option \<Rightarrow> int option" where
  "display_change eventType eventData =
     (case eventData of
        None \<Rightarrow> None
      | Some pbs \<Rightarrow>
          if eventType = 0x8013
             \<and> (PowerSetting pbs = GUID_CONSOLE_DISPLAY_STATE
                  \<or> PowerSetting pbs = GUID_MONITOR_POWER_ON)
          then Some (uint (Data0 pbs))
          else None)"

section \<open>Sample inputs\<close>

definition sample_now :: instant where
  \<comment> \<open>an instant some 2025 years after the zero \<^verbatim>\<open>Time\<close>\<close>
  "sample_now = 63900000000 * Second"

definition sample_poller :: WakeEventPoller where
  "sample_poller = NewWakeEventPoller ''HID-TOUCH'' True None"

definition sample_ok_poller :: WakeEventPoller where
  "sample_ok_poller = sample_poller\<lparr>lastStatus := ''OK''\<rparr>"

definition sample_error_poller :: WakeEventPoller where
  "sample_error_poller = sample_poller\<lparr>lastStatus := ''Error'', lastRepairTime := sample_now\<rparr>"

definition sample_pending_poller :: WakeEventPoller where
  "sample_pending_poller = sample_error_poller\<lparr>pendingRepair := True, paused := True\<rparr>"

definition one_retry_poller :: WakeEventPoller where
  "one_retry_poller =
     NewWakeEventPoller ''HID-TOUCH'' True
       (Some \<lparr>BaseRetryInterval = 60 * Second, MaxRetryInterval = 600 * Second,
              MaxRetryCount = 1\<rparr>)"

definition huge_interval_poller :: WakeEventPoller where
  "huge_interval_poller =
     NewWakeEventPoller ''HID-TOUCH'' True
       (Some \<lparr>BaseRetryInterval = 2 ^ 62, MaxRetryInterval = 2 ^ 63 - 1, MaxRetryCount = 0\<rparr>)"

definition env_asleep :: poll_env where
  "env_asleep =
     \<lparr>status_res = Inr ''Error'', idle_res = Inr 400000, since_now = sample_now + 61 * Second,
      repair_ok = False, repair_now = sample_now + 70 * Second\<rparr>"

definition env_active :: poll_env where
  "env_active =
     \<lparr>status_res = Inr ''Error'', idle_res = Inr 5000, since_now = sample_now + 61 * Second,
      repair_ok = True, repair_now = sample_now + 70 * Second\<rparr>"

definition env_idle_unknown :: poll_env where
  "env_idle_unknown =
     \<lparr>status_res = Inr ''Error'', idle_res = Inl ''GetLastInputInfo'',
      since_now = sample_now + 61 * Second,
      repair_ok = False, repair_now = sample_now + 70 * Second\<rparr>"

definition env_idle_60500 :: poll_env where
  "env_idle_60500 =
     \<lparr>status_res = Inr ''Error'', idle_res = Inr 60500, since_now = sample_now + 61 * Second,
      repair_ok = False, repair_now = sample_now + 70 * Second\<rparr>"

definition env_recovered :: poll_env where
  "env_recovered =
     \<lparr>status_res = Inr ''OK'', idle_res = Inr 5000, since_now = sample_now + 61 * Second,
      repair_ok = True, repair_now = sample_now + 70 * Second\<rparr>"

definition env_startup_fail :: poll_env where
  "env_startup_fail =
     \<lparr>status_res = Inr ''Error'', idle_res = Inr 1000, since_now = sample_now,
      repair_ok = False, repair_now = sample_now\<rparr>"

definition env_retry_fail :: poll_env where
  "env_retry_fail =
     \<lparr>status_res = Inr ''Error'', idle_res = Inr 1000, since_now = sample_now + 61 * Second,
      repair_ok = False, repair_now = sample_now + 70 * Second\<rparr>"

definition sample_system :: system where
  "sample_system = (sys_new sample_ok_poller)\<lparr>sys_ctl := Running\<rparr>"

definition sample_monitor :: PowerMonitor where
  "sample_monitor = NewPowerMonitor True"

definition display_on_event :: PowerBroadcastSetting where
  "display_on_event = \<lparr>PowerSetting = GUID_CONSOLE_DISPLAY_STATE, DataLength = 4, Data0 = 2\<rparr>"

definition display_off_event :: PowerBroadcastSetting where
  "display_off_event = \<lparr>PowerSetting = GUID_MONITOR_POWER_ON, DataLength = 4, Data0 = 0\<rparr>"

definition display_dimmed_event :: PowerBroadcastSetting where
  "display_dimmed_event = \<lparr>PowerSetting = GUID_CONSOLE_DISPLAY_STATE, DataLength = 4, Data0 = 1\<rparr>"

definition monitor_off :: PowerMonitor where
  \<comment> \<open>the monitor of \<open>sample_monitor\<close> after the display went off\<close>
  "monitor_off = fst (HandlePowerBroadcast sample_now 0x8013 (Some display_off_event) sample_monitor)"

definition monitor_dimmed :: PowerMonitor where
  \<comment> \<open>and after it went from off to dimmed\<close>
  "monitor_dimmed =
     fst (HandlePowerBroadcast (sample_now + 10 * Second) 0x8013 (Some display_dimmed_event)
            monitor_off)"

definition one_retry_failed_poller :: WakeEventPoller where
  \<comment> \<open>the poller after a failed repair at start-up\<close>
  "one_retry_failed_poller = fst (poll_init env_startup_fail one_retry_poller)"

definition sample_cfg :: service_cfg where
  "sample_cfg =
     \<lparr>DeviceInstanceID = ''HID-TOUCH'', DeviceName = ''Touch'', WaitSeconds = 2,
      ResumeDelaySeconds = 3\<rparr>"

definition reset_fine :: reset_env where
  "reset_fine =
     \<lparr>initial_status = Inr ''Error'', disable_err = None, enable_err = None,
      final_status = Inr ''Error''\<rparr>"

definition env_still_broken :: repair_env where
  "env_still_broken =
     \<lparr>precheck_res = Inr ''Error'', reset_answers = reset_fine, verify_res = Inr ''Error''\<rparr>"

definition env_repaired :: repair_env where
  "env_repaired =
     \<lparr>precheck_res = Inr ''Error'', reset_answers = reset_fine, verify_res = Inr ''OK''\<rparr>"

definition env_unverified :: repair_env where
  "env_unverified =
     \<lparr>precheck_res = Inr ''Error'', reset_answers = reset_fine, verify_res = Inl ''timeout''\<rparr>"

section \<open>Auxiliary facts\<close>

lemmas sample_defs =
  sample_now_def sample_poller_def sample_ok_poller_def sample_error_poller_def
  sample_pending_poller_def one_retry_poller_def huge_interval_poller_def
  env_asleep_def env_active_def env_idle_unknown_def env_idle_60500_def env_recovered_def
  env_startup_fail_def env_retry_fail_def sample_system_def NewWakeEventPoller_def
  sys_new_def Second_def Minute_def

lemmas tick_defs =
  poll_tick_def IsPaused_def status_change_def sustained_error_def interval_elapsed_def
  getCurrentInterval_def do_repair_def idle_seconds_def ResetRetryState_def
  incrementFails_def wrap64_def time_Sub_def minDuration_def maxDuration_def

lemma wrap64_id: "- (2 ^ 63) \<le> x \<Longrightarrow> x < 2 ^ 63 \<Longrightarrow> wrap64 x = x"
  unfolding wrap64_def by (simp add: mod_pos_pos_trivial)

lemma idle_seconds_ge_300:
  "(idle_seconds r < 0 \<or> idle_seconds r \<ge> 300)
     = (case r of Inl e \<Rightarrow> True | Inr ms \<Rightarrow> 300000 \<le> unat ms)"
  by (cases r) (auto simp: idle_seconds_def)

lemma idle_seconds_gt_60:
  "(idle_seconds r \<ge> 0 \<and> idle_seconds r > 60)
     = (case r of Inl e \<Rightarrow> False | Inr ms \<Rightarrow> 61000 \<le> unat ms)"
  by (cases r) (auto simp: idle_seconds_def)

section \<open>The tick on a change from OK to an error\<close>

text \<open>
  Claim C1. On a tick that is neither paused nor backoff-exhausted, with a fresh status
  that is not OK and a stored status that is OK: when the idle-time query fails or reports
  300 seconds or more, the tick sets \<open>pendingRepair\<close>, stores the new status and repairs
  nothing; when the idle time is known and below 300 seconds, the tick resets the backoff
  state, calls the (registered) repair callback exactly once, and ends with
  \<open>pendingRepair\<close> false, the new status stored, and the backoff state that the one repair
  outcome leaves after the reset.
\<close>

theorem ok_to_error_tick:
  assumes "\<not> paused p" and "\<not> exceeded"
    and "status_res env = Inr status" and "status \<noteq> ''OK''" and "lastStatus p = ''OK''"
  shows
    "((case idle_res env of Inl e \<Rightarrow> True | Inr ms \<Rightarrow> 300000 \<le> unat ms) \<longrightarrow>
        poll_tick env p exceeded =
          ((p\<lparr>pendingRepair := True, lastStatus := status\<rparr>, False), [QueryStatus, QueryIdle]))
     \<and> ((case idle_res env of Inl e \<Rightarrow> False | Inr ms \<Rightarrow> unat ms < 300000) \<and> callback_set p \<longrightarrow>
        snd (poll_tick env p exceeded) = [QueryStatus, QueryIdle, Repair]
        \<and> fst (fst (poll_tick env p exceeded)) =
            (let q = (ResetRetryState (p\<lparr>pendingRepair := False\<rparr>))\<lparr>lastRepairTime := repair_now env\<rparr>
             in (if repair_ok env then ResetRetryState q else fst (incrementFails q))
                  \<lparr>lastStatus := status\<rparr>)
        \<and> pendingRepair (fst (fst (poll_tick env p exceeded))) = False
        \<and> lastStatus (fst (fst (poll_tick env p exceeded))) = status
        \<and> consecutiveFails (fst (fst (poll_tick env p exceeded))) = (if repair_ok env then 0 else 1)
        \<and> (repair_ok env \<longrightarrow>
             currentInterval (fst (fst (poll_tick env p exceeded))) = baseRetryInterval p))"
proof -
  let ?i = "idle_seconds (idle_res env)"
  have far: "(?i < 0 \<or> ?i \<ge> 300)
      = (case idle_res env of Inl e \<Rightarrow> True | Inr ms \<Rightarrow> 300000 \<le> unat ms)"
    by (rule idle_seconds_ge_300)
  have near: "(\<not> (?i < 0 \<or> ?i \<ge> 300))
      = (case idle_res env of Inl e \<Rightarrow> False | Inr ms \<Rightarrow> unat ms < 300000)"
    unfolding far by (cases "idle_res env") auto
  have one: "wrap64 1 = 1" by (simp add: wrap64_id)
  show ?thesis
    using assms far near one
    by (auto simp: poll_tick_def IsPaused_def status_change_def sustained_error_def
        do_repair_def Let_def ResetRetryState_def incrementFails_def split: prod.splits)
qed

theorem ok_to_error_tick_witness:
  "poll_tick env_asleep sample_ok_poller False
     = ((sample_ok_poller\<lparr>pendingRepair := True, lastStatus := ''Error''\<rparr>, False),
        [QueryStatus, QueryIdle])
   \<and> snd (poll_tick env_active sample_ok_poller False) = [QueryStatus, QueryIdle, Repair]
   \<and> pendingRepair (fst (fst (poll_tick env_active sample_ok_poller False))) = False
   \<and> consecutiveFails (fst (fst (poll_tick env_active sample_ok_poller False))) = 0"
  using ok_to_error_tick [of sample_ok_poller False env_asleep "''Error''"]
    ok_to_error_tick [of sample_ok_poller False env_active "''Error''"]
  by (simp add: sample_defs ResetRetryState_def Let_def)

section \<open>Resume with a pending repair\<close>

text \<open>
  Claim C2. \<open>Resume\<close> on a paused poller with \<open>pendingRepair\<close> set clears \<open>paused\<close> and
  launches the recheck. The recheck, on whatever state \<open>q\<close> the poller has when it runs,
  first sleeps two seconds and then queries the device status exactly once. If the answer
  is OK, \<open>pendingRepair\<close> is cleared and no repair is called; if the answer is another
  status (and a callback is registered), one repair is called and \<open>pendingRepair\<close> is
  cleared only when that repair reports success.
\<close>

theorem resume_pending_recheck:
  assumes "paused p" and "pendingRepair p"
  shows
    "snd (Resume p) = [SpawnRecheck] \<and> \<not> paused (fst (Resume p))
     \<and> take 2 (snd (resume_recheck env q)) = [Sleep (2 * Second), QueryStatus]
     \<and> count_list (snd (resume_recheck env q)) QueryStatus = 1
     \<and> (status_res env = Inr ''OK'' \<longrightarrow>
           resume_recheck env q
             = (q\<lparr>pendingRepair := False\<rparr>, [Sleep (2 * Second), QueryStatus]))
     \<and> ((case status_res env of Inl e \<Rightarrow> False | Inr status \<Rightarrow> status \<noteq> ''OK'')
          \<and> callback_set q \<longrightarrow>
           snd (resume_recheck env q) = [Sleep (2 * Second), QueryStatus, Repair]
           \<and> pendingRepair (fst (resume_recheck env q)) = (pendingRepair q \<and> \<not> repair_ok env))"
  using assms
  by (auto simp: Resume_def resume_recheck_def ResetRetryState_def Let_def split: sum.splits)

theorem resume_pending_recheck_witness:
  "paused sample_pending_poller \<and> pendingRepair sample_pending_poller
   \<and> snd (Resume sample_pending_poller) = [SpawnRecheck]
   \<and> resume_recheck env_recovered (fst (Resume sample_pending_poller))
       = ((fst (Resume sample_pending_poller))\<lparr>pendingRepair := False\<rparr>,
          [Sleep (2 * Second), QueryStatus])
   \<and> snd (resume_recheck env_retry_fail (fst (Resume sample_pending_poller)))
       = [Sleep (2 * Second), QueryStatus, Repair]
   \<and> pendingRepair (fst (resume_recheck env_retry_fail (fst (Resume sample_pending_poller))))
   \<and> \<not> pendingRepair (fst (resume_recheck env_active (fst (Resume sample_pending_poller))))"
  using resume_pending_recheck
      [of sample_pending_poller env_recovered "fst (Resume sample_pending_poller)"]
    resume_pending_recheck
      [of sample_pending_poller env_retry_fail "fst (Resume sample_pending_poller)"]
    resume_pending_recheck
      [of sample_pending_poller env_active "fst (Resume sample_pending_poller)"]
  by (simp add: sample_defs Resume_def)

section \<open>The tick on a sustained error\<close>

text \<open>
  Claim C3, as stated: on a tick where the new and the stored status are both not OK and
  \<open>pendingRepair\<close> is false, a repair is attempted only while the idle time is at most 60
  seconds. The code lets the tick repair when the idle-time query fails: below, the idle
  time is unknown and the tick calls the repair.
\<close>

theorem sustained_error_idle_unknown_repairs:
  "\<not> paused sample_error_poller
   \<and> status_res env_idle_unknown = Inr ''Error''
   \<and> lastStatus sample_error_poller = ''Error''
   \<and> \<not> pendingRepair sample_error_poller
   \<and> idle_res env_idle_unknown = Inl ''GetLastInputInfo''
   \<and> snd (poll_tick env_idle_unknown sample_error_poller False)
       = [QueryStatus, QueryIdle, Repair]"
  by (simp add: sample_defs tick_defs Let_def)

text \<open>
  The idle time is compared in whole seconds: an idle time of 60.5 seconds counts as 60
  and does not stop the repair either.
\<close>

lemma sustained_error_idle_60500_repairs:
  "snd (poll_tick env_idle_60500 sample_error_poller False) = [QueryStatus, QueryIdle, Repair]"
  by (simp add: sample_defs tick_defs Let_def)

text \<open>
  Claim C3, amended. On such a tick (not paused, not backoff-exhausted) a repair is
  attempted exactly when a callback is registered, the idle-time query fails or reports
  less than 61 seconds (at most 60 whole seconds), and more than \<open>currentInterval\<close> has
  elapsed since \<open>lastRepairTime\<close>; at most one repair is attempted; and when the idle time
  is known to be 61 seconds or more the tick repairs nothing and leaves the state as it
  was.
\<close>

theorem sustained_error_tick:
  assumes "\<not> paused p" and "\<not> exceeded"
    and "status_res env = Inr status" and "status \<noteq> ''OK''"
    and "lastStatus p \<noteq> ''OK''" and "\<not> pendingRepair p"
  shows
    "(Repair \<in> set (snd (poll_tick env p exceeded)))
       = (callback_set p
          \<and> (case idle_res env of Inl e \<Rightarrow> True | Inr ms \<Rightarrow> unat ms < 61000)
          \<and> currentInterval p < time_Sub (since_now env) (lastRepairTime p))
     \<and> count_list (snd (poll_tick env p exceeded)) Repair \<le> 1
     \<and> ((case idle_res env of Inl e \<Rightarrow> False | Inr ms \<Rightarrow> 61000 \<le> unat ms) \<longrightarrow>
          poll_tick env p exceeded = ((p, exceeded), [QueryStatus, QueryIdle]))"
proof -
  let ?i = "idle_seconds (idle_res env)"
  have far: "(?i \<ge> 0 \<and> ?i > 60)
      = (case idle_res env of Inl e \<Rightarrow> False | Inr ms \<Rightarrow> 61000 \<le> unat ms)"
    by (rule idle_seconds_gt_60)
  have near: "(\<not> (?i \<ge> 0 \<and> ?i > 60))
      = (case idle_res env of Inl e \<Rightarrow> True | Inr ms \<Rightarrow> unat ms < 61000)"
    unfolding far by (cases "idle_res env") auto
  show ?thesis
    using assms far near
    by (auto simp: poll_tick_def IsPaused_def status_change_def sustained_error_def
        interval_elapsed_def getCurrentInterval_def
        do_repair_def Let_def split: prod.splits)
qed

theorem sustained_error_tick_witness:
  "Repair \<in> set (snd (poll_tick env_active sample_error_poller False))
   \<and> poll_tick env_asleep sample_error_poller False
       = ((sample_error_poller, False), [QueryStatus, QueryIdle])"
  using sustained_error_tick [of sample_error_poller False env_active "''Error''"]
    sustained_error_tick [of sample_error_poller False env_asleep "''Error''"]
  by (simp add: sample_defs time_Sub_def minDuration_def maxDuration_def)

section \<open>Backoff exhaustion\<close>

text \<open>
  In the tick, a failed repair that brings \<open>consecutiveFails\<close> to \<open>maxRetryCount\<close> sets
  \<^verbatim>\<open>exceededMaxRetry\<close>, and from then on a tick queries the status and repairs nothing
  until the status is OK, which resets the retry state.
\<close>

lemma do_repair_latches:
  assumes "callback_set p" and "\<not> repair_ok env" and "0 < maxRetryCount p"
    and "maxRetryCount p \<le> wrap64 (consecutiveFails p + 1)"
  shows "snd (fst (do_repair env p exceeded)) = True"
  using assms by (simp add: do_repair_def incrementFails_def Let_def)

lemma exhausted_tick:
  "Repair \<notin> set (snd (poll_tick env p True))
   \<and> (\<not> paused p \<and> status_res env = Inr ''OK'' \<longrightarrow>
        poll_tick env p True
          = (((ResetRetryState p)\<lparr>lastStatus := ''OK''\<rparr>, False), [QueryStatus]))
   \<and> (status_res env \<noteq> Inr ''OK'' \<longrightarrow> fst (poll_tick env p True) = (p, True))"
  by (auto simp: poll_tick_def IsPaused_def split: sum.splits)

text \<open>
  Claim C4. The start of \<^verbatim>\<open>poll\<close> drops what \<^verbatim>\<open>incrementFails\<close> returns. With
  \<open>maxRetryCount = 1\<close> a failed repair at start-up brings \<open>consecutiveFails\<close> to
  \<open>maxRetryCount\<close> and leaves \<^verbatim>\<open>exceededMaxRetry\<close> false; the tick 61 seconds later, with
  the device still in error and never seen OK, repairs again.
\<close>

theorem startup_exhaustion_not_latched:
  "maxRetryCount one_retry_poller = 1
   \<and> consecutiveFails (sys_poller (fst (sys_run [StartPoll env_startup_fail]
        (sys_new one_retry_poller)))) = 1
   \<and> sys_exceeded (fst (sys_run [StartPoll env_startup_fail] (sys_new one_retry_poller)))
       = False
   \<and> snd (sys_run [StartPoll env_startup_fail, TickerFired env_retry_fail]
        (sys_new one_retry_poller))
       = [QueryStatus, Repair, QueryStatus, QueryIdle, Repair]"
  by (simp add: sample_defs poll_init_def tick_defs Let_def)

section \<open>The bounds of the backoff interval\<close>

lemma inv_ResetRetryState: "backoff_inv b m p \<Longrightarrow> backoff_inv b m (ResetRetryState p)"
  by (auto simp: backoff_inv_def ResetRetryState_def)

lemma incrementFails_interval:
  assumes "0 < currentInterval p" and "currentInterval p \<le> maxRetryInterval p"
    and "maxRetryInterval p < 2 ^ 62"
  shows "currentInterval (fst (incrementFails p))
     = (if snd (incrementFails p) then min (2 * currentInterval p) (maxRetryInterval p)
        else currentInterval p)"
proof -
  have "wrap64 (currentInterval p * 2) = currentInterval p * 2"
    using assms by (intro wrap64_id) auto
  then show ?thesis
    by (auto simp: incrementFails_def Let_def)
qed

lemma incrementFails_frame:
  "baseRetryInterval (fst (incrementFails p)) = baseRetryInterval p
   \<and> maxRetryInterval (fst (incrementFails p)) = maxRetryInterval p"
  by (auto simp: incrementFails_def Let_def)

lemma inv_incrementFails:
  assumes "backoff_inv b m p"
  shows "backoff_inv b m (fst (incrementFails p))"
proof -
  have c: "0 < currentInterval p" "currentInterval p \<le> maxRetryInterval p"
    "maxRetryInterval p < 2 ^ 62"
    using assms by (auto simp: backoff_inv_def)
  show ?thesis
    using assms incrementFails_interval [OF c] incrementFails_frame [of p]
    by (auto simp: backoff_inv_def split: if_splits)
qed

lemma inv_frame:
  "backoff_inv b m p \<Longrightarrow> backoff_inv b m (p\<lparr>pendingRepair := x\<rparr>)"
  "backoff_inv b m p \<Longrightarrow> backoff_inv b m (p\<lparr>lastStatus := s\<rparr>)"
  "backoff_inv b m p \<Longrightarrow> backoff_inv b m (p\<lparr>lastRepairTime := t\<rparr>)"
  "backoff_inv b m p \<Longrightarrow> backoff_inv b m (p\<lparr>pauseChan := c\<rparr>)"
  "backoff_inv b m p \<Longrightarrow> backoff_inv b m (p\<lparr>paused := z\<rparr>)"
  by (auto simp: backoff_inv_def)

lemma inv_Pause: "backoff_inv b m p \<Longrightarrow> backoff_inv b m (Pause p)"
  by (simp add: Pause_def inv_frame)

lemma inv_Resume: "backoff_inv b m p \<Longrightarrow> backoff_inv b m (fst (Resume p))"
  by (simp add: Resume_def Let_def inv_frame)

lemma inv_resume_recheck:
  "backoff_inv b m p \<Longrightarrow> backoff_inv b m (fst (resume_recheck env p))"
  by (auto simp: resume_recheck_def inv_frame inv_ResetRetryState split: sum.splits)

lemma inv_poll_init:
  "backoff_inv b m p \<Longrightarrow> backoff_inv b m (fst (poll_init env p))"
  by (auto simp: poll_init_def Let_def inv_frame inv_ResetRetryState inv_incrementFails
      split: sum.splits)

lemma inv_status_change:
  "backoff_inv b m p \<Longrightarrow> backoff_inv b m (flow_poller (status_change status i p))"
  by (auto simp: status_change_def flow_poller_def inv_frame inv_ResetRetryState)

lemma inv_interval_elapsed:
  "backoff_inv b m p \<Longrightarrow> backoff_inv b m (flow_poller (interval_elapsed env p r))"
  by (auto simp: interval_elapsed_def flow_poller_def)

lemma inv_sustained_error:
  "backoff_inv b m p \<Longrightarrow> backoff_inv b m (flow_poller (sustained_error env status i p r))"
  by (auto simp: sustained_error_def inv_interval_elapsed inv_frame inv_ResetRetryState)
     (simp add: flow_poller_def)+

lemma inv_do_repair:
  "backoff_inv b m p \<Longrightarrow> backoff_inv b m (fst (fst (do_repair env p ex)))"
  using inv_incrementFails [of b m "p\<lparr>lastRepairTime := repair_now env\<rparr>"]
  by (auto simp: do_repair_def Let_def inv_frame inv_ResetRetryState split: prod.splits)

lemma inv_poll_tick:
  assumes "backoff_inv b m p"
  shows "backoff_inv b m (fst (fst (poll_tick env p ex)))"
proof (cases "status_res env")
  case (Inl e)
  then show ?thesis using assms by (simp add: poll_tick_def)
next
  case (Inr status)
  let ?p1 = "if status = ''OK'' then p\<lparr>pendingRepair := False\<rparr> else p"
  let ?i = "idle_seconds (idle_res env)"
  have p1: "backoff_inv b m ?p1" using assms by (simp add: inv_frame)
  have sc: "backoff_inv b m (flow_poller (status_change status ?i ?p1))"
    by (rule inv_status_change [OF p1])
  show ?thesis
  proof (cases "IsPaused p \<or> ex")
    case True
    then show ?thesis using assms Inr
      by (auto simp: poll_tick_def inv_frame inv_ResetRetryState)
  next
    case False
    show ?thesis
    proof (cases "status_change status ?i ?p1")
      case (Continue p2)
      then show ?thesis using False Inr sc
        by (simp add: poll_tick_def Let_def flow_poller_def)
    next
      case (Next p2 r)
      have p2: "backoff_inv b m p2" using sc Next by (simp add: flow_poller_def)
      have se: "backoff_inv b m (flow_poller (sustained_error env status ?i p2 r))"
        by (rule inv_sustained_error [OF p2])
      show ?thesis
      proof (cases "sustained_error env status ?i p2 r")
        case (Continue p3)
        then show ?thesis using False Inr Next se
          by (simp add: poll_tick_def Let_def flow_poller_def)
      next
        case N: (Next p3 r')
        have p3: "backoff_inv b m p3" using se N by (simp add: flow_poller_def)
        have dr: "backoff_inv b m (fst (fst (do_repair env p3 ex)))"
          by (rule inv_do_repair [OF p3])
        show ?thesis using False Inr Next N p3 dr
          by (auto simp: poll_tick_def Let_def inv_frame split: prod.splits)
      qed
    qed
  qed
qed

lemma inv_sys_step:
  assumes "backoff_inv b m (sys_poller s)"
  shows "backoff_inv b m (sys_poller (fst (sys_step a s)))"
proof (cases a)
  case CallPause
  then show ?thesis using assms by (simp add: inv_Pause)
next
  case CallResume
  have "backoff_inv b m (fst (Resume (sys_poller s)))" by (rule inv_Resume [OF assms])
  then show ?thesis using CallResume by (auto split: prod.splits)
next
  case CallResetRetryState
  then show ?thesis using assms by (simp add: inv_ResetRetryState)
next
  case (StartPoll env)
  have "backoff_inv b m (fst (poll_init env (sys_poller s)))" by (rule inv_poll_init [OF assms])
  then show ?thesis using StartPoll assms by (auto split: prod.splits)
next
  case (TickerFired env)
  have "backoff_inv b m (fst (fst (poll_tick env (sys_poller s) (sys_exceeded s))))"
    by (rule inv_poll_tick [OF assms])
  then show ?thesis using TickerFired assms by (auto split: prod.splits)
next
  case PauseChanRecv
  then show ?thesis using assms by (simp add: inv_frame split: option.splits)
next
  case StopChanRecv
  then show ?thesis using assms by simp
next
  case (RunRecheck env)
  have "backoff_inv b m (fst (resume_recheck env (sys_poller s)))"
    by (rule inv_resume_recheck [OF assms])
  then show ?thesis using RunRecheck assms by (auto split: prod.splits)
qed

lemma sys_run_Cons_fst: "fst (sys_run (a # as) s) = fst (sys_run as (fst (sys_step a s)))"
  by (simp split: prod.splits)

lemma inv_sys_run:
  "backoff_inv b m (sys_poller s) \<Longrightarrow> backoff_inv b m (sys_poller (fst (sys_run as s)))"
proof (induction as arbitrary: s)
  case Nil
  then show ?case by simp
next
  case (Cons a as)
  have "backoff_inv b m (sys_poller (fst (sys_step a s)))"
    by (rule inv_sys_step [OF Cons.prems])
  then have "backoff_inv b m (sys_poller (fst (sys_run as (fst (sys_step a s)))))"
    by (rule Cons.IH)
  then show ?case by (simp only: sys_run_Cons_fst)
qed

lemma new_poller_base_pos: "0 < baseRetryInterval (NewWakeEventPoller dev cb cfg)"
  by (auto simp: NewWakeEventPoller_def Let_def Second_def split: option.splits)

text \<open>
  Claim C5, as stated: the interval doubles (capped) on each repair failure. The failure
  that brings \<open>consecutiveFails\<close> to \<open>maxRetryCount\<close> returns before the doubling: with
  \<open>maxRetryCount = 1\<close> the first failure leaves the interval at 60 seconds, where the
  doubling capped at 600 seconds gives 120.
\<close>

theorem backoff_not_doubled_at_limit:
  "currentInterval (fst (incrementFails one_retry_poller)) = 60 * Second
   \<and> min (2 * currentInterval one_retry_poller) (maxRetryInterval one_retry_poller)
       = 120 * Second
   \<and> snd (incrementFails one_retry_poller) = False"
  by (simp add: sample_defs incrementFails_def wrap64_def Let_def)

text \<open>
  The doubling is an \<^verbatim>\<open>int64\<close> multiplication: from an interval of \<open>2 ^ 62\<close> nanoseconds
  (some 146 years) it wraps to a negative value, which the cap does not catch.
\<close>

lemma backoff_doubling_wraps:
  "baseRetryInterval huge_interval_poller \<le> maxRetryInterval huge_interval_poller
   \<and> currentInterval (fst (incrementFails huge_interval_poller)) = - (2 ^ 63)"
  by (simp add: sample_defs incrementFails_def wrap64_def Let_def)

lemma incrementFails_exact:
  assumes "0 < currentInterval p" and "currentInterval p \<le> maxRetryInterval p"
    and "maxRetryInterval p < 2 ^ 62"
  shows "incrementFails p =
     (p\<lparr>consecutiveFails := fails_after_failure (consecutiveFails p),
        currentInterval := interval_after_failure (consecutiveFails p) (currentInterval p) p\<rparr>,
      \<not> (0 < maxRetryCount p \<and> maxRetryCount p \<le> fails_after_failure (consecutiveFails p)))"
proof -
  have "wrap64 (currentInterval p * 2) = currentInterval p * 2"
    using assms by (intro wrap64_id) auto
  then show ?thesis
    using assms
    by (auto simp: incrementFails_def interval_after_failure_def fails_after_failure_def
        Let_def min_def)
qed

lemma do_repair_backoff:
  assumes "callback_set q" and "0 < currentInterval q"
    and "currentInterval q \<le> maxRetryInterval q" and "maxRetryInterval q < 2 ^ 62"
  shows "snd (do_repair env q ex) = [Repair]
     \<and> consecutiveFails (fst (fst (do_repair env q ex)))
         = (if repair_ok env then 0 else fails_after_failure (consecutiveFails q))
     \<and> currentInterval (fst (fst (do_repair env q ex)))
         = (if repair_ok env then baseRetryInterval q
            else interval_after_failure (consecutiveFails q) (currentInterval q) q)"
proof -
  let ?q1 = "q\<lparr>lastRepairTime := repair_now env\<rparr>"
  have e: "incrementFails ?q1 =
     (?q1\<lparr>consecutiveFails := fails_after_failure (consecutiveFails ?q1),
        currentInterval := interval_after_failure (consecutiveFails ?q1) (currentInterval ?q1) ?q1\<rparr>,
      \<not> (0 < maxRetryCount ?q1 \<and> maxRetryCount ?q1 \<le> fails_after_failure (consecutiveFails ?q1)))"
    by (rule incrementFails_exact) (use assms in simp_all)
  show ?thesis
    using assms(1) e
    by (simp add: do_repair_def Let_def ResetRetryState_def interval_after_failure_def)
qed

lemma tick_repair_backoff:
  assumes inv: "backoff_inv b m p"
    and rep: "Repair \<in> set (snd (poll_tick env p ex))"
  shows "consecutiveFails (fst (fst (poll_tick env p ex)))
       = (if repair_ok env then 0 else fails_after_failure (fails_before_repair p))
     \<and> currentInterval (fst (fst (poll_tick env p ex)))
       = (if repair_ok env then baseRetryInterval p
          else interval_after_failure (fails_before_repair p) (interval_before_repair p) p)"
proof -
  have c: "0 < currentInterval p" "currentInterval p \<le> maxRetryInterval p"
    "maxRetryInterval p < 2 ^ 62" "0 < baseRetryInterval p"
    "baseRetryInterval p \<le> maxRetryInterval p"
    using inv by (auto simp: backoff_inv_def)
  let ?r = "ResetRetryState (p\<lparr>pendingRepair := False\<rparr>)"
  have r: "0 < currentInterval ?r" "currentInterval ?r \<le> maxRetryInterval ?r"
    "maxRetryInterval ?r < 2 ^ 62"
    using c by (simp_all add: ResetRetryState_def)
  note dp = do_repair_backoff [of p env ex, OF _ c(1) c(2) c(3)]
  note dr = do_repair_backoff [of ?r env ex, OF _ r]
  show ?thesis
    using rep dp dr
    by (auto simp: poll_tick_def IsPaused_def status_change_def sustained_error_def
        interval_elapsed_def getCurrentInterval_def Let_def interval_after_failure_def
        tick_resets_first_def fails_before_repair_def interval_before_repair_def
        do_repair_def ResetRetryState_def
        split: sum.splits if_splits prod.splits)
qed

lemma init_repair_backoff:
  assumes inv: "backoff_inv b m p"
    and rep: "Repair \<in> set (snd (poll_init env p))"
  shows "consecutiveFails (fst (poll_init env p))
       = (if repair_ok env then 0 else fails_after_failure (consecutiveFails p))
     \<and> currentInterval (fst (poll_init env p))
       = (if repair_ok env then baseRetryInterval p
          else interval_after_failure (consecutiveFails p) (currentInterval p) p)"
proof -
  have c: "0 < currentInterval p" "currentInterval p \<le> maxRetryInterval p"
    "maxRetryInterval p < 2 ^ 62"
    using inv by (auto simp: backoff_inv_def)
  have e: "incrementFails (p\<lparr>lastStatus := s, lastRepairTime := t\<rparr>) =
     ((p\<lparr>lastStatus := s, lastRepairTime := t\<rparr>)
        \<lparr>consecutiveFails := fails_after_failure (consecutiveFails p),
         currentInterval := interval_after_failure (consecutiveFails p) (currentInterval p) p\<rparr>,
      \<not> (0 < maxRetryCount p \<and> maxRetryCount p \<le> fails_after_failure (consecutiveFails p)))"
    for s t
    using incrementFails_exact [of "p\<lparr>lastStatus := s, lastRepairTime := t\<rparr>"] c
    by (simp add: interval_after_failure_def)
  show ?thesis
    using rep e
    by (auto simp: poll_init_def Let_def ResetRetryState_def split: sum.splits if_splits)
qed

lemma recheck_repair_backoff:
  assumes "Repair \<in> set (snd (resume_recheck env p))"
  shows "consecutiveFails (fst (resume_recheck env p))
       = (if repair_ok env then 0 else consecutiveFails p)
     \<and> currentInterval (fst (resume_recheck env p))
       = (if repair_ok env then baseRetryInterval p else currentInterval p)"
  using assms
  by (auto simp: resume_recheck_def ResetRetryState_def split: sum.splits if_splits)

text \<open>
  Claim C5, amended. For a poller made by \<^verbatim>\<open>NewWakeEventPoller\<close> whose base interval is
  at most its maximal interval, and whose maximal interval is below \<open>2 ^ 62\<close> nanoseconds,
  the interval starts at the base interval and, after every sequence of calls, start-up,
  ticks, channel events and rechecks with whatever answers and repair outcomes, lies
  between the base and the maximal interval (\<open>backoff_inv\<close> holds). On every state with
  \<open>backoff_inv\<close>: a repair at start-up or in a tick that succeeds sets the count of
  failures to 0 and the interval to the base interval; one that fails increments the count
  and doubles the interval, capped at the maximal interval, unless \<open>maxRetryCount\<close> is
  positive and the incremented count is at least \<open>maxRetryCount\<close>, when the interval stays
  as it is. In a tick the count and the interval the failure acts on are the reset ones
  (0 and the base interval) when the tick saw the status change from OK or resolved a
  pending repair. A repair in the recheck after \<open>Resume\<close> resets both on success and
  leaves both as they are on failure.
\<close>

theorem backoff_interval_bounds:
  assumes "baseRetryInterval (NewWakeEventPoller dev cb cfg)
             \<le> maxRetryInterval (NewWakeEventPoller dev cb cfg)"
    and "maxRetryInterval (NewWakeEventPoller dev cb cfg) < 2 ^ 62"
  shows
    "currentInterval (NewWakeEventPoller dev cb cfg)
       = baseRetryInterval (NewWakeEventPoller dev cb cfg)
     \<and> backoff_inv (baseRetryInterval (NewWakeEventPoller dev cb cfg))
          (maxRetryInterval (NewWakeEventPoller dev cb cfg))
          (sys_poller (fst (sys_run as (sys_new (NewWakeEventPoller dev cb cfg)))))
     \<and> baseRetryInterval (NewWakeEventPoller dev cb cfg)
         \<le> currentInterval (sys_poller (fst (sys_run as (sys_new (NewWakeEventPoller dev cb cfg)))))
     \<and> currentInterval (sys_poller (fst (sys_run as (sys_new (NewWakeEventPoller dev cb cfg)))))
         \<le> maxRetryInterval (NewWakeEventPoller dev cb cfg)
     \<and> currentInterval (ResetRetryState p) = baseRetryInterval p
     \<and> consecutiveFails (ResetRetryState p) = 0
     \<and> (0 < currentInterval p \<and> currentInterval p \<le> maxRetryInterval p
          \<and> maxRetryInterval p < 2 ^ 62 \<longrightarrow>
         currentInterval (fst (incrementFails p))
           = (if snd (incrementFails p)
              then min (2 * currentInterval p) (maxRetryInterval p)
              else currentInterval p)
         \<and> incrementFails p =
             (p\<lparr>consecutiveFails := fails_after_failure (consecutiveFails p),
                currentInterval :=
                  interval_after_failure (consecutiveFails p) (currentInterval p) p\<rparr>,
              \<not> (0 < maxRetryCount p
                  \<and> maxRetryCount p \<le> fails_after_failure (consecutiveFails p))))
     \<and> (backoff_inv b m p \<and> Repair \<in> set (snd (poll_init env p)) \<longrightarrow>
         consecutiveFails (fst (poll_init env p))
           = (if repair_ok env then 0 else fails_after_failure (consecutiveFails p))
         \<and> currentInterval (fst (poll_init env p))
           = (if repair_ok env then baseRetryInterval p
              else interval_after_failure (consecutiveFails p) (currentInterval p) p))
     \<and> (backoff_inv b m p \<and> Repair \<in> set (snd (poll_tick env p exceeded)) \<longrightarrow>
         consecutiveFails (fst (fst (poll_tick env p exceeded)))
           = (if repair_ok env then 0 else fails_after_failure (fails_before_repair p))
         \<and> currentInterval (fst (fst (poll_tick env p exceeded)))
           = (if repair_ok env then baseRetryInterval p
              else interval_after_failure (fails_before_repair p)
                     (interval_before_repair p) p))
     \<and> (Repair \<in> set (snd (resume_recheck env p)) \<longrightarrow>
         consecutiveFails (fst (resume_recheck env p))
           = (if repair_ok env then 0 else consecutiveFails p)
         \<and> currentInterval (fst (resume_recheck env p))
           = (if repair_ok env then baseRetryInterval p else currentInterval p))"
proof -
  let ?p0 = "NewWakeEventPoller dev cb cfg"
  let ?pn = "sys_poller (fst (sys_run as (sys_new ?p0)))"
  have c0: "currentInterval ?p0 = baseRetryInterval ?p0"
    by (simp add: NewWakeEventPoller_def Let_def)
  have i0: "backoff_inv (baseRetryInterval ?p0) (maxRetryInterval ?p0) (sys_poller (sys_new ?p0))"
    using assms c0 new_poller_base_pos [of dev cb cfg]
    by (simp add: backoff_inv_def sys_new_def)
  have inv: "backoff_inv (baseRetryInterval ?p0) (maxRetryInterval ?p0) ?pn"
    by (rule inv_sys_run [OF i0])
  then have bm: "baseRetryInterval ?p0 \<le> currentInterval ?pn"
    "currentInterval ?pn \<le> maxRetryInterval ?p0"
    by (simp_all add: backoff_inv_def)
  have r: "currentInterval (ResetRetryState p) = baseRetryInterval p"
    "consecutiveFails (ResetRetryState p) = 0"
    by (simp_all add: ResetRetryState_def)
  note facts = c0 inv bm r incrementFails_interval [of p] incrementFails_exact [of p]
    init_repair_backoff [of b m p env] tick_repair_backoff [of b m p env exceeded]
    recheck_repair_backoff [of env p]
  show ?thesis
    by (intro conjI impI; (elim conjE)?; (rule facts; assumption)?)
       (use facts in blast)+
qed

theorem backoff_interval_bounds_witness:
  "baseRetryInterval sample_poller \<le> maxRetryInterval sample_poller
   \<and> maxRetryInterval sample_poller < 2 ^ 62
   \<and> 60 * Second
       \<le> currentInterval (sys_poller (fst (sys_run
            [StartPoll env_startup_fail, TickerFired env_retry_fail, TickerFired env_recovered]
            (sys_new sample_poller))))
   \<and> currentInterval (sys_poller (fst (sys_run
            [StartPoll env_startup_fail, TickerFired env_retry_fail, TickerFired env_recovered]
            (sys_new sample_poller))))
       \<le> 10 * Minute
   \<and> consecutiveFails one_retry_failed_poller = 1
   \<and> Repair \<in> set (snd (poll_tick env_retry_fail one_retry_failed_poller False))
   \<and> consecutiveFails (fst (fst (poll_tick env_retry_fail one_retry_failed_poller False))) = 2
   \<and> currentInterval (fst (fst (poll_tick env_retry_fail one_retry_failed_poller False)))
       = 60 * Second
   \<and> currentInterval (fst (incrementFails sample_poller)) = 120 * Second"
  using backoff_interval_bounds
      [where dev = "''HID-TOUCH''" and cb = True and cfg = None
         and as = "[StartPoll env_startup_fail, TickerFired env_retry_fail,
                   TickerFired env_recovered]"
         and p = one_retry_failed_poller and env = env_retry_fail and exceeded = False
         and b = "60 * Second" and m = "600 * Second"]
    backoff_interval_bounds
      [where dev = "''HID-TOUCH''" and cb = True and cfg = None and as = "[]"
         and p = sample_poller and env = env_retry_fail and exceeded = False
         and b = "60 * Second" and m = "600 * Second"]
  by (simp add: sample_defs one_retry_failed_poller_def poll_init_def backoff_inv_def
      tick_defs fails_after_failure_def interval_after_failure_def
      fails_before_repair_def interval_before_repair_def tick_resets_first_def Let_def)

section \<open>Ticks while paused\<close>

lemma paused_step:
  assumes "paused (sys_poller s)" and "loop_or_pause a"
  shows "snd (sys_step a s) = []
     \<and> (sys_poller (fst (sys_step a s)))\<lparr>pauseChan := c\<rparr> = (sys_poller s)\<lparr>pauseChan := c\<rparr>"
  using assms
  by (cases a) (auto simp: Pause_def poll_tick_def IsPaused_def split: option.splits)

lemma paused_of_chan_eq:
  assumes "(q::WakeEventPoller)\<lparr>pauseChan := c\<rparr> = p\<lparr>pauseChan := c\<rparr>"
  shows "paused q = paused p"
proof -
  have "paused (q\<lparr>pauseChan := c\<rparr>) = paused (p\<lparr>pauseChan := c\<rparr>)"
    using assms by simp
  then show ?thesis by simp
qed

lemma paused_run:
  assumes "\<forall>a \<in> set as. loop_or_pause a" and "paused (sys_poller s)"
  shows "snd (sys_run as s) = []
     \<and> (sys_poller (fst (sys_run as s)))\<lparr>pauseChan := c\<rparr> = (sys_poller s)\<lparr>pauseChan := c\<rparr>"
  using assms
proof (induction as arbitrary: s)
  case Nil
  then show ?case by simp
next
  case (Cons a as)
  obtain s1 e1 where st: "sys_step a s = (s1, e1)" by (cases "sys_step a s")
  have a: "loop_or_pause a" using Cons.prems by simp
  from paused_step [OF Cons.prems(2) a, of c] st
  have e1: "e1 = []"
    and eq1: "(sys_poller s1)\<lparr>pauseChan := c\<rparr> = (sys_poller s)\<lparr>pauseChan := c\<rparr>"
    by simp_all
  have p1: "paused (sys_poller s1)" using paused_of_chan_eq [OF eq1] Cons.prems(2) by simp
  have ih: "snd (sys_run as s1) = []
     \<and> (sys_poller (fst (sys_run as s1)))\<lparr>pauseChan := c\<rparr> = (sys_poller s1)\<lparr>pauseChan := c\<rparr>"
    using Cons.IH [of s1] Cons.prems(1) p1 by simp
  show ?case using st e1 eq1 ih by (simp split: prod.splits)
qed

text \<open>
  Claim C6. After \<open>Pause\<close> the poller is paused, and as long as \<open>Resume\<close> is not called
  (the steps are ticker firings with whatever answers, channel receptions of the loop and
  further \<open>Pause\<close> calls) no status query, no idle-time query and no repair happens, the
  poller stays paused, and no field of it but the content of \<open>pauseChan\<close> changes. A tick
  on a paused poller is skipped whole: it returns the state as it was with no effect.
\<close>

theorem pause_suppresses_ticks:
  assumes "\<forall>a \<in> set as. loop_or_pause a"
  shows
    "paused (sys_poller (fst (sys_step CallPause s)))
     \<and> snd (sys_run as (fst (sys_step CallPause s))) = []
     \<and> paused (sys_poller (fst (sys_run as (fst (sys_step CallPause s)))))
     \<and> (sys_poller (fst (sys_run as (fst (sys_step CallPause s)))))\<lparr>pauseChan := None\<rparr>
         = (Pause (sys_poller s))\<lparr>pauseChan := None\<rparr>
     \<and> poll_tick env (Pause q) exceeded = ((Pause q, exceeded), [])"
proof -
  let ?s1 = "fst (sys_step CallPause s)"
  have p: "paused (sys_poller ?s1)" by (simp add: Pause_def)
  have sp: "sys_poller ?s1 = Pause (sys_poller s)" by simp
  from paused_run [OF assms p, of None]
  have r: "snd (sys_run as ?s1) = []"
    and eq: "(sys_poller (fst (sys_run as ?s1)))\<lparr>pauseChan := None\<rparr>
         = (sys_poller ?s1)\<lparr>pauseChan := None\<rparr>"
    by simp_all
  have p2: "paused (sys_poller (fst (sys_run as ?s1)))"
    using paused_of_chan_eq [OF eq] p by simp
  have t: "poll_tick env (Pause q) exceeded = ((Pause q, exceeded), [])"
    by (simp add: poll_tick_def IsPaused_def Pause_def)
  show ?thesis using p r p2 eq sp t by simp
qed

theorem pause_suppresses_ticks_witness:
  "snd (sys_run [TickerFired env_active, PauseChanRecv, TickerFired env_retry_fail]
         (fst (sys_step CallPause sample_system))) = []
   \<and> paused (sys_poller (fst (sys_run
         [TickerFired env_active, PauseChanRecv, TickerFired env_retry_fail]
         (fst (sys_step CallPause sample_system)))))
   \<and> snd (sys_run [TickerFired env_active] sample_system) = [QueryStatus, QueryIdle, Repair]"
  using pause_suppresses_ticks
      [where as = "[TickerFired env_active, PauseChanRecv, TickerFired env_retry_fail]"
         and s = sample_system and env = env_active and q = sample_ok_poller
         and exceeded = False]
  by (simp add: sample_defs tick_defs Pause_def chan_send_def Let_def)

section \<open>Debouncing and classification of resume events\<close>

text \<open>
  Claim C7. When a trigger at \<open>t1\<close> is accepted and a second one arrives at \<open>t2\<close>, not
  before \<open>t1\<close> and less than \<open>minInterval\<close> after it, the second \<open>triggerResume\<close> returns
  false, invokes no callback and leaves the monitor, its last-trigger time included, as
  the first left it: the two triggers invoke the registered callback exactly once.
\<close>

theorem debounce_second_trigger:
  assumes "triggerResume r1 t1 pm = (pm1, True, effs1)"
    and "t1 \<le> t2" and "t2 - t1 < minInterval pm"
  shows
    "triggerResume r2 t2 pm1 = (pm1, False, [])
     \<and> lastResumeTime pm1 = t1
     \<and> effs1 @ snd (snd (triggerResume r2 t2 pm1))
         = (if pm_callback_set pm then [GoCallback] else [])"
  using assms
  by (auto simp: triggerResume_def time_Sub_def minDuration_def maxDuration_def Let_def
      split: if_splits)

theorem debounce_second_trigger_witness:
  "triggerResume LegacyPowerEvent sample_now sample_monitor
     = (sample_monitor\<lparr>lastResumeTime := sample_now\<rparr>, True, [GoCallback])
   \<and> minInterval sample_monitor = 5 * Second
   \<and> triggerResume LegacyPowerEvent (sample_now + 2 * Second)
        (sample_monitor\<lparr>lastResumeTime := sample_now\<rparr>)
     = (sample_monitor\<lparr>lastResumeTime := sample_now\<rparr>, False, [])"
  using debounce_second_trigger
      [of LegacyPowerEvent sample_now sample_monitor
          "sample_monitor\<lparr>lastResumeTime := sample_now\<rparr>" "[GoCallback]"
          "sample_now + 2 * Second" LegacyPowerEvent]
  by (simp add: sample_monitor_def NewPowerMonitor_def sample_now_def Second_def
      triggerResume_def time_Sub_def minDuration_def maxDuration_def)

text \<open>
  Claim C8. \<open>HandlePowerBroadcast\<close> treats as a resume trigger exactly the events the
  specification names (\<open>spec_resume_trigger\<close>): on any other event it returns false,
  invokes no callback and keeps the last-trigger time; on such an event it does what
  \<open>triggerResume\<close> does, returning true, invoking the registered callback and storing the
  time unless the debounce interval suppresses it. The monitor it returns is the one it
  got with the display state of a display change stored (and left as it was by any other
  event) and the last-trigger time set when the trigger fired: so, after a display change
  to a state \<open>s\<close>, the next setting change is a resume trigger exactly when \<open>s\<close> is off and
  it is a display change to on. A setting change whose stored previous state is not off,
  or whose new state is not on (a dimmed transition, on to off), never invokes the
  callback.
\<close>

theorem resume_trigger_classification:
  "(\<not> spec_resume_trigger pm eventType eventData \<longrightarrow>
      fst (snd (HandlePowerBroadcast now eventType eventData pm)) = False
      \<and> snd (snd (HandlePowerBroadcast now eventType eventData pm)) = []
      \<and> lastResumeTime (fst (HandlePowerBroadcast now eventType eventData pm))
          = lastResumeTime pm)
   \<and> (spec_resume_trigger pm eventType eventData \<longrightarrow>
        fst (snd (HandlePowerBroadcast now eventType eventData pm))
          = (\<not> time_Sub now (lastResumeTime pm) < minInterval pm)
        \<and> snd (snd (HandlePowerBroadcast now eventType eventData pm))
          = (if \<not> time_Sub now (lastResumeTime pm) < minInterval pm \<and> pm_callback_set pm
             then [GoCallback] else [])
        \<and> lastResumeTime (fst (HandlePowerBroadcast now eventType eventData pm))
          = (if time_Sub now (lastResumeTime pm) < minInterval pm
             then lastResumeTime pm else now))
   \<and> (eventType = 0x8013 \<and>
        (lastDisplayState pm \<noteq> DisplayStateOff
         \<or> (case eventData of None \<Rightarrow> True | Some pbs \<Rightarrow> uint (Data0 pbs) \<noteq> DisplayStateOn)) \<longrightarrow>
        snd (snd (HandlePowerBroadcast now eventType eventData pm)) = [])
   \<and> fst (HandlePowerBroadcast now eventType eventData pm)
       = pm\<lparr>lastDisplayState :=
               (case display_change eventType eventData of
                  None \<Rightarrow> lastDisplayState pm
                | Some s \<Rightarrow> s),
             lastResumeTime :=
               (if spec_resume_trigger pm eventType eventData
                   \<and> \<not> time_Sub now (lastResumeTime pm) < minInterval pm
                then now else lastResumeTime pm)\<rparr>
   \<and> (display_change eventType eventData = Some s \<longrightarrow>
        lastDisplayState (fst (HandlePowerBroadcast now eventType eventData pm)) = s
        \<and> spec_resume_trigger (fst (HandlePowerBroadcast now eventType eventData pm))
            0x8013 nextData
          = (s = DisplayStateOff \<and> display_change 0x8013 nextData = Some DisplayStateOn))
   \<and> (display_change eventType eventData = None \<longrightarrow>
        lastDisplayState (fst (HandlePowerBroadcast now eventType eventData pm))
          = lastDisplayState pm)"
proof -
  have old: "(\<not> spec_resume_trigger pm eventType eventData \<longrightarrow>
      fst (snd (HandlePowerBroadcast now eventType eventData pm)) = False
      \<and> snd (snd (HandlePowerBroadcast now eventType eventData pm)) = []
      \<and> lastResumeTime (fst (HandlePowerBroadcast now eventType eventData pm))
          = lastResumeTime pm)
   \<and> (spec_resume_trigger pm eventType eventData \<longrightarrow>
        fst (snd (HandlePowerBroadcast now eventType eventData pm))
          = (\<not> time_Sub now (lastResumeTime pm) < minInterval pm)
        \<and> snd (snd (HandlePowerBroadcast now eventType eventData pm))
          = (if \<not> time_Sub now (lastResumeTime pm) < minInterval pm \<and> pm_callback_set pm
             then [GoCallback] else [])
        \<and> lastResumeTime (fst (HandlePowerBroadcast now eventType eventData pm))
          = (if time_Sub now (lastResumeTime pm) < minInterval pm
             then lastResumeTime pm else now))
   \<and> (eventType = 0x8013 \<and>
        (lastDisplayState pm \<noteq> DisplayStateOff
         \<or> (case eventData of None \<Rightarrow> True | Some pbs \<Rightarrow> uint (Data0 pbs) \<noteq> DisplayStateOn)) \<longrightarrow>
        snd (snd (HandlePowerBroadcast now eventType eventData pm)) = [])"
    by (auto simp: HandlePowerBroadcast_def spec_resume_trigger_def triggerResume_def Let_def
        DisplayStateOff_def DisplayStateOn_def split: option.splits)
  have st: "fst (HandlePowerBroadcast now eventType eventData pm)
       = pm\<lparr>lastDisplayState :=
               (case display_change eventType eventData of
                  None \<Rightarrow> lastDisplayState pm
                | Some s \<Rightarrow> s),
             lastResumeTime :=
               (if spec_resume_trigger pm eventType eventData
                   \<and> \<not> time_Sub now (lastResumeTime pm) < minInterval pm
                then now else lastResumeTime pm)\<rparr>"
    by (cases pm)
       (auto simp: HandlePowerBroadcast_def spec_resume_trigger_def triggerResume_def Let_def
          display_change_def DisplayStateOff_def DisplayStateOn_def split: option.splits)
  have ds: "lastDisplayState (fst (HandlePowerBroadcast now eventType eventData pm))
      = (case display_change eventType eventData of
           None \<Rightarrow> lastDisplayState pm | Some s \<Rightarrow> s)"
    by (subst st) simp
  have nx: "display_change eventType eventData = Some s \<Longrightarrow>
        spec_resume_trigger (fst (HandlePowerBroadcast now eventType eventData pm))
            0x8013 nextData
          = (s = DisplayStateOff \<and> display_change 0x8013 nextData = Some DisplayStateOn)"
    using ds
    by (auto simp: spec_resume_trigger_def display_change_def DisplayStateOff_def
        DisplayStateOn_def split: option.splits if_splits)
  show ?thesis
    using old st ds nx by simp
qed

theorem resume_trigger_classification_witness:
  "snd (HandlePowerBroadcast sample_now 0x8013 (Some display_off_event) sample_monitor)
     = (False, [])
   \<and> lastDisplayState sample_monitor = DisplayStateOn
   \<and> lastDisplayState monitor_off = DisplayStateOff
   \<and> snd (HandlePowerBroadcast (sample_now + 10 * Second) 0x8013 (Some display_on_event)
        monitor_off)
     = (True, [GoCallback])
   \<and> lastDisplayState monitor_dimmed = DisplayStateDimmed
   \<and> snd (HandlePowerBroadcast (sample_now + 10 * Second) 0x8013 (Some display_dimmed_event)
        monitor_off)
     = (False, [])
   \<and> snd (HandlePowerBroadcast (sample_now + 20 * Second) 0x8013 (Some display_on_event)
        monitor_dimmed)
     = (False, [])
   \<and> snd (HandlePowerBroadcast sample_now 18 None sample_monitor) = (True, [GoCallback])
   \<and> snd (HandlePowerBroadcast sample_now 10 None sample_monitor) = (False, [])"
  using resume_trigger_classification
      [where pm = sample_monitor and eventType = "0x8013"
         and eventData = "Some display_off_event" and now = sample_now
         and s = DisplayStateOff and nextData = "Some display_on_event"]
    resume_trigger_classification
      [where pm = monitor_off and eventType = "0x8013"
         and eventData = "Some display_on_event" and now = "sample_now + 10 * Second"
         and s = DisplayStateOn and nextData = "Some display_on_event"]
    resume_trigger_classification
      [where pm = monitor_off and eventType = "0x8013"
         and eventData = "Some display_dimmed_event" and now = "sample_now + 10 * Second"
         and s = DisplayStateDimmed and nextData = "Some display_on_event"]
    resume_trigger_classification
      [where pm = monitor_dimmed and eventType = "0x8013"
         and eventData = "Some display_on_event" and now = "sample_now + 20 * Second"
         and s = DisplayStateOn and nextData = "Some display_on_event"]
    resume_trigger_classification
      [where pm = sample_monitor and eventType = 18 and eventData = None
         and now = sample_now and s = 0 and nextData = None]
    resume_trigger_classification
      [where pm = sample_monitor and eventType = 10 and eventData = None
         and now = sample_now and s = 0 and nextData = None]
  by (simp add: monitor_off_def monitor_dimmed_def sample_monitor_def NewPowerMonitor_def
      sample_now_def Second_def HandlePowerBroadcast_def triggerResume_def Let_def
      display_on_event_def display_off_event_def display_dimmed_event_def
      spec_resume_trigger_def display_change_def
      GUID_CONSOLE_DISPLAY_STATE_def GUID_MONITOR_POWER_ON_def
      DisplayStateOff_def DisplayStateOn_def DisplayStateDimmed_def
      time_Sub_def minDuration_def maxDuration_def prod_eq_iff)

section \<open>The outcome of a repair\<close>

text \<open>
  Claim C9. When the check before the reset does not find the device OK, a repair is
  attempted, and \<open>handlePolledWake\<close> returns success, records one reset result with the
  success flag set and notifies a fix if and only if the status query after the reset
  confirms OK: a reset that completes and leaves another status, a verifying query that
  fails and a reset that fails are each recorded as failure and returned as failure, and
  a failure is never notified as fixed. When the check before the reset finds the device
  OK, nothing is reset and no reset result is recorded.
\<close>

theorem repair_outcome_verified:
  "((case precheck_res env of Inl e \<Rightarrow> False | Inr status \<Rightarrow> EqualFold_OK status) \<longrightarrow>
      fst (handlePolledWake cfg env) = True
      \<and> recorded_resets (snd (handlePolledWake cfg env)) = []
      \<and> DevDisable \<notin> set (snd (handlePolledWake cfg env)))
   \<and> (\<not> (case precheck_res env of Inl e \<Rightarrow> False | Inr status \<Rightarrow> EqualFold_OK status) \<longrightarrow>
        fst (handlePolledWake cfg env) = post_reset_confirms_OK env
        \<and> recorded_resets (snd (handlePolledWake cfg env)) = [post_reset_confirms_OK env]
        \<and> DevDisable \<in> set (snd (handlePolledWake cfg env))
        \<and> (post_reset_confirms_OK env \<longrightarrow>
             notified_fixed (snd (handlePolledWake cfg env)) = [True])
        \<and> (\<not> post_reset_confirms_OK env \<longrightarrow>
             True \<notin> set (notified_fixed (snd (handlePolledWake cfg env)))))"
  by (auto simp: handlePolledWake_def Reset_def post_reset_confirms_OK_def Let_def
      split: option.splits sum.splits)

theorem repair_outcome_verified_witness:
  "fst (handlePolledWake sample_cfg env_still_broken) = False
   \<and> recorded_resets (snd (handlePolledWake sample_cfg env_still_broken)) = [False]
   \<and> fst (handlePolledWake sample_cfg env_unverified) = False
   \<and> recorded_resets (snd (handlePolledWake sample_cfg env_unverified)) = [False]
   \<and> fst (handlePolledWake sample_cfg env_repaired) = True
   \<and> recorded_resets (snd (handlePolledWake sample_cfg env_repaired)) = [True]"
  using repair_outcome_verified [of env_still_broken sample_cfg]
    repair_outcome_verified [of env_unverified sample_cfg]
    repair_outcome_verified [of env_repaired sample_cfg]
  by (simp add: env_still_broken_def env_unverified_def env_repaired_def reset_fine_def
      post_reset_confirms_OK_def EqualFold_OK_def kelvin_sign_def)

section \<open>Resume on a poller that is not paused\<close>

text \<open>
  Claim C10. \<open>Resume\<close> on a poller that is not paused returns the poller as it is, every
  field included, and launches no recheck, whatever \<open>pendingRepair\<close> holds; the system
  around it is left as it was and no status query or repair follows from the call.
\<close>

theorem resume_when_not_paused:
  "\<not> paused (sys_poller s) \<Longrightarrow>
     Resume (sys_poller s) = (sys_poller s, []) \<and> sys_step CallResume s = (s, [])"
  by (simp add: Resume_def)

theorem resume_when_not_paused_witness:
  "\<not> paused (sys_poller (sample_system\<lparr>sys_poller := sample_error_poller\<lparr>pendingRepair := True\<rparr>\<rparr>))
   \<and> sys_step CallResume (sample_system\<lparr>sys_poller := sample_error_poller\<lparr>pendingRepair := True\<rparr>\<rparr>)
       = (sample_system\<lparr>sys_poller := sample_error_poller\<lparr>pendingRepair := True\<rparr>\<rparr>, [])"
  using resume_when_not_paused
      [of "sample_system\<lparr>sys_poller := sample_error_poller\<lparr>pendingRepair := True\<rparr>\<rparr>"]
  by (simp add: sample_defs)

end
